theory Spec2Isabelle
  imports Main
begin

section \<open>Values exchanged with the hosting runtime\<close>

text \<open>
  The payload handed to the entrypoint and the units streamed by the agent are Python
  dictionaries with string keys. Their values are arbitrary JSON-like objects.
\<close>

datatype json =
    JNull
  | JBool bool
  | JInt int
  | JStr string
  | JArr "json list"
  | JObj "(string \<times> json) list"

type_synonym pydict = "string \<rightharpoonup> json"

text \<open>An exception is identified by its message; the source neither creates nor inspects one.\<close>

type_synonym exn = string

text \<open>\<^verbatim>\<open>d.get(k, dflt)\<close>: the stored value when the key is present, whatever it is.\<close>

definition dict_get :: "pydict \<Rightarrow> string \<Rightarrow> json \<Rightarrow> json" where
  "dict_get d k dflt = (case d k of None \<Rightarrow> dflt | Some v \<Rightarrow> v)"

text \<open>\<^verbatim>\<open>k in d\<close> for a dictionary.\<close>

definition contains :: "string \<Rightarrow> pydict \<Rightarrow> bool" where
  "contains k d = (case d k of None \<Rightarrow> False | Some v \<Rightarrow> True)"

section \<open>External collaborators\<close>

text \<open>
  \<^verbatim>\<open>MCPClient\<close>, \<^verbatim>\<open>Agent\<close> and \<^verbatim>\<open>BedrockModel\<close> are libraries. What they
  return or raise is a parameter of the model (\<open>env\<close>); each outcome may depend on everything
  that was called on them before. An \<^verbatim>\<open>Agent\<close> object carries the index of its
  construction, which stands for Python's object identity. The constructors themselves are
  taken not to raise. There is one \<^verbatim>\<open>MCPClient\<close> object, made when the module is
  imported; every \<^verbatim>\<open>__enter__\<close>, \<^verbatim>\<open>list_tools_sync\<close> and \<^verbatim>\<open>__exit__\<close> is a
  call on it.
\<close>

datatype client = Stdio_mcp_client

type_synonym tool = string

record Agent =
  agent_id :: nat
  model :: string
  tools :: "tool list"

datatype call =
    Enter "exn option"
  | ListTools "exn + tool list"
  | NewAgent Agent
  | StreamAsync Agent json
  | Exit "exn option"

record env =
  enter_outcome :: "call list \<Rightarrow> exn option"
  list_tools_outcome :: "call list \<Rightarrow> exn + tool list"
  stream_outcome :: "call list \<Rightarrow> Agent \<Rightarrow> json \<Rightarrow> pydict list \<times> exn option"
  exit_outcome :: "call list \<Rightarrow> exn option"

section \<open>Module state\<close>

text \<open>
  The two module-level variables \<^verbatim>\<open>agent\<close> and \<^verbatim>\<open>mcp_context_manager\<close> (both
  \<^verbatim>\<open>None\<close> at import), and the history of the calls made on the collaborators, oldest
  first. The history is not a variable of the source: it is what the claims count.
\<close>

record globals =
  agent :: "Agent option"
  mcp_context_manager :: "client option"
  calls :: "call list"

definition module_init :: globals where
  "module_init = \<lparr>agent = None, mcp_context_manager = None, calls = []\<rparr>"

definition MODEL_ID :: string where
  "MODEL_ID = ''anthropic.claude-3-5-sonnet-20240620-v1:0''"

definition log :: "call \<Rightarrow> globals \<Rightarrow> globals" where
  "log c g = g\<lparr>calls := calls g @ [c]\<rparr>"

text \<open>
  \<^verbatim>\<open>stdio_mcp_client.__enter__()\<close>: raises, or returns the client object itself.
\<close>

definition mcp_enter :: "env \<Rightarrow> globals \<Rightarrow> (exn + client) \<times> globals" where
  "mcp_enter E g =
     (case enter_outcome E (calls g) of
        Some e \<Rightarrow> (Inl e, log (Enter (Some e)) g)
      | None \<Rightarrow> (Inr Stdio_mcp_client, log (Enter None) g))"

text \<open>\<^verbatim>\<open>stdio_mcp_client.list_tools_sync()\<close>\<close>

definition list_tools_sync :: "env \<Rightarrow> globals \<Rightarrow> (exn + tool list) \<times> globals" where
  "list_tools_sync E g =
     (case list_tools_outcome E (calls g) of
        Inl e \<Rightarrow> (Inl e, log (ListTools (Inl e)) g)
      | Inr ts \<Rightarrow> (Inr ts, log (ListTools (Inr ts)) g))"

definition is_NewAgent :: "call \<Rightarrow> bool" where
  "is_NewAgent c = (case c of NewAgent a \<Rightarrow> True | _ \<Rightarrow> False)"

text \<open>\<^verbatim>\<open>Agent(model=BedrockModel(model_id=m), tools=ts)\<close>: a new object.\<close>

definition new_Agent :: "string \<Rightarrow> tool list \<Rightarrow> globals \<Rightarrow> Agent \<times> globals" where
  "new_Agent m ts g =
     (let a = \<lparr>agent_id = length (filter is_NewAgent (calls g)), model = m, tools = ts\<rparr>
      in (a, log (NewAgent a) g))"

text \<open>\<^verbatim>\<open>stdio_mcp_client.__exit__(None, None, None)\<close>\<close>

definition mcp_exit :: "env \<Rightarrow> globals \<Rightarrow> exn option \<times> globals" where
  "mcp_exit E g = (let r = exit_outcome E (calls g) in (r, log (Exit r) g))"

section \<open>The initializer\<close>

text \<open>
  \<^verbatim>\<open>initialize_agent()\<close>. An exception of \<^verbatim>\<open>__enter__\<close> or of
  \<^verbatim>\<open>list_tools_sync\<close> is not caught: it leaves the function at that statement, with
  the assignments made so far in place.
\<close>

definition initialize_agent :: "env \<Rightarrow> globals \<Rightarrow> (exn + Agent) \<times> globals" where
  "initialize_agent E g =
     (case agent g of
        Some a \<Rightarrow> (Inr a, g)
      | None \<Rightarrow>
          (case mcp_enter E g of
             (Inl e, g1) \<Rightarrow> (Inl e, g1)
           | (Inr h, g1) \<Rightarrow>
               (let g2 = g1\<lparr>mcp_context_manager := Some h\<rparr> in
                case list_tools_sync E g2 of
                  (Inl e, g3) \<Rightarrow> (Inl e, g3)
                | (Inr ts, g3) \<Rightarrow>
                    (case new_Agent MODEL_ID ts g3 of
                       (a, g4) \<Rightarrow> (Inr a, g4\<lparr>agent := Some a\<rparr>)))))"

section \<open>The entrypoint\<close>

definition fallback_prompt :: string where
  "fallback_prompt =
     ''No prompt found in input, please guide customer to create a json payload with prompt key''"

text \<open>
  \<^verbatim>\<open>current_agent.stream_async(user_prompt)\<close>: the units the agent will produce, and the
  exception that ends the stream if one does. The stream is finite, and what it holds is
  settled when it is opened.
\<close>

definition stream_async ::
  "env \<Rightarrow> Agent \<Rightarrow> json \<Rightarrow> globals \<Rightarrow> (pydict list \<times> exn option) \<times> globals" where
  "stream_async E a p g = (stream_outcome E (calls g) a p, log (StreamAsync a p) g)"

text \<open>The \<^verbatim>\<open>async for\<close> loop of the entrypoint, over the units of a stream.\<close>

fun relay :: "pydict list \<Rightarrow> pydict list" where
  "relay [] = []"
| "relay (event # rest) =
     (if contains ''event'' event then event # relay rest else relay rest)"

text \<open>
  What the caller of the entrypoint receives: the units yielded, in order, and the exception
  that ended the generator, if any.
\<close>

record response =
  events :: "pydict list"
  raised :: "exn option"

text \<open>\<^verbatim>\<open>invoke(payload)\<close>, iterated by its caller until it ends.\<close>

definition invoke :: "env \<Rightarrow> pydict \<Rightarrow> globals \<Rightarrow> response \<times> globals" where
  "invoke E payload g =
     (case initialize_agent E g of
        (Inl e, g1) \<Rightarrow> (\<lparr>events = [], raised = Some e\<rparr>, g1)
      | (Inr current_agent, g1) \<Rightarrow>
          (let user_prompt = dict_get payload ''prompt'' (JStr fallback_prompt) in
           case stream_async E current_agent user_prompt g1 of
             ((units, err), g2) \<Rightarrow> (\<lparr>events = relay units, raised = err\<rparr>, g2)))"

section \<open>The shutdown path\<close>

text \<open>The \<^verbatim>\<open>finally\<close> clause of the main guard.\<close>

definition shutdown :: "env \<Rightarrow> globals \<Rightarrow> exn option \<times> globals" where
  "shutdown E g =
     (case mcp_context_manager g of
        None \<Rightarrow> (None, g)
      | Some h \<Rightarrow> mcp_exit E g)"

section \<open>Requests served concurrently\<close>

text \<open>
  The entrypoint is an asynchronous generator. Calling it creates the generator and runs
  nothing. Each time the host resumes it, the body runs up to its next suspension point, and
  no other request runs meanwhile. The body can suspend only inside the \<^verbatim>\<open>async for\<close>
  loop: \<^verbatim>\<open>initialize_agent\<close> is a plain function without \<^verbatim>\<open>await\<close>. So the first
  resumption runs the initializer, reads the prompt and opens the stream in one piece; every
  later resumption takes one unit from the stream.
\<close>

datatype status = Created | Running | Returned | Raised exn

record task =
  payload :: pydict
  status :: status
  current_agent :: "Agent option"
  agent_stream :: "pydict list \<times> exn option"
  yielded :: "pydict list"

definition new_task :: "pydict \<Rightarrow> task" where
  "new_task p =
     \<lparr>payload = p, status = Created, current_agent = None, agent_stream = ([], None),
      yielded = []\<rparr>"

definition resume :: "env \<Rightarrow> task \<Rightarrow> globals \<Rightarrow> task \<times> globals" where
  "resume E t g =
     (case status t of
        Created \<Rightarrow>
          (case initialize_agent E g of
             (Inl e, g1) \<Rightarrow> (t\<lparr>status := Raised e\<rparr>, g1)
           | (Inr a, g1) \<Rightarrow>
               (let user_prompt = dict_get (payload t) ''prompt'' (JStr fallback_prompt) in
                case stream_async E a user_prompt g1 of
                  (s, g2) \<Rightarrow> (t\<lparr>status := Running, current_agent := Some a, agent_stream := s\<rparr>, g2)))
      | Running \<Rightarrow>
          (case agent_stream t of
             ([], None) \<Rightarrow> (t\<lparr>status := Returned\<rparr>, g)
           | ([], Some e) \<Rightarrow> (t\<lparr>status := Raised e\<rparr>, g)
           | (event # rest, err) \<Rightarrow>
               (if contains ''event'' event
                then (t\<lparr>agent_stream := (rest, err), yielded := yielded t @ [event]\<rparr>, g)
                else (t\<lparr>agent_stream := (rest, err)\<rparr>, g)))
      | Returned \<Rightarrow> (t, g)
      | Raised e \<Rightarrow> (t, g))"

text \<open>
  The host resumes request \<open>i\<close>; a schedule is the order in which it resumes them.
\<close>

definition step :: "env \<Rightarrow> nat \<Rightarrow> globals \<times> task list \<Rightarrow> globals \<times> task list" where
  "step E i c =
     (case c of (g, ts) \<Rightarrow>
        if i < length ts
        then (case resume E (ts ! i) g of (t', g') \<Rightarrow> (g', ts[i := t']))
        else (g, ts))"

fun run :: "env \<Rightarrow> nat list \<Rightarrow> globals \<times> task list \<Rightarrow> globals \<times> task list" where
  "run E [] c = c"
| "run E (i # sched) c = run E sched (step E i c)"

text \<open>
  The main guard: \<^verbatim>\<open>app.run()\<close> serves the requests it is given in some order, then the
  \<^verbatim>\<open>finally\<close> clause runs once.
\<close>

definition main :: "env \<Rightarrow> pydict list \<Rightarrow> nat list \<Rightarrow> exn option \<times> globals \<times> task list" where
  "main E payloads sched =
     (case run E sched (module_init, map new_task payloads) of
        (g, ts) \<Rightarrow> (case shutdown E g of (r, g') \<Rightarrow> (r, g', ts)))"

text \<open>A request resumed \<open>n\<close> times with nothing else running.\<close>

fun drive :: "env \<Rightarrow> nat \<Rightarrow> task \<Rightarrow> globals \<Rightarrow> task \<times> globals" where
  "drive E 0 t g = (t, g)"
| "drive E (Suc n) t g = (case resume E t g of (t', g') \<Rightarrow> drive E n t' g')"

section \<open>Counting calls\<close>

definition is_Enter :: "call \<Rightarrow> bool" where
  "is_Enter c = (case c of Enter r \<Rightarrow> True | _ \<Rightarrow> False)"

definition is_ListTools :: "call \<Rightarrow> bool" where
  "is_ListTools c = (case c of ListTools r \<Rightarrow> True | _ \<Rightarrow> False)"

definition is_Exit :: "call \<Rightarrow> bool" where
  "is_Exit c = (case c of Exit r \<Rightarrow> True | _ \<Rightarrow> False)"

text \<open>The number of \<^verbatim>\<open>__enter__\<close> calls that returned: each one opened a context.\<close>

definition entered :: "call list \<Rightarrow> nat" where
  "entered cs = length (filter (\<lambda>c. c = Enter None) cs)"

definition exited :: "call list \<Rightarrow> nat" where
  "exited cs = length (filter is_Exit cs)"

section \<open>Invariants of the module state\<close>

definition is_StreamAsync :: "call \<Rightarrow> bool" where
  "is_StreamAsync c = (case c of StreamAsync a p \<Rightarrow> True | _ \<Rightarrow> False)"

text \<open>The calls of a construction: everything but the openings of streams.\<close>

definition construction_calls :: "call list \<Rightarrow> call list" where
  "construction_calls cs = filter (\<lambda>c. \<not> is_StreamAsync c) cs"

text \<open>
  \<^verbatim>\<open>mcp_context_manager\<close> is set exactly when some \<^verbatim>\<open>__enter__\<close> has returned, and
  nothing calls \<^verbatim>\<open>__exit__\<close> while requests are served.
\<close>

definition context_tracked :: "globals \<Rightarrow> bool" where
  "context_tracked g =
     ((mcp_context_manager g = None) = (entered (calls g) = 0) \<and> exited (calls g) = 0)"

text \<open>Moreover at most one context has ever been entered.\<close>

definition single_context :: "globals \<Rightarrow> bool" where
  "single_context g = (context_tracked g \<and> entered (calls g) \<le> 1)"

text \<open>The agent objects made so far: none, or the stored one.\<close>

definition agent_recorded :: "globals \<Rightarrow> bool" where
  "agent_recorded g =
     (filter is_NewAgent (calls g) = (case agent g of None \<Rightarrow> [] | Some a \<Rightarrow> [NewAgent a]))"

text \<open>
  Starting from the state \<open>g0\<close>, one construction has run: it made the agent \<open>a0\<close> from the
  tools \<open>tls\<close> and stored it.
\<close>

definition built :: "globals \<Rightarrow> Agent \<Rightarrow> tool list \<Rightarrow> globals \<Rightarrow> bool" where
  "built g0 a0 tls g =
     (agent g = Some a0 \<and>
      construction_calls (calls g) =
        construction_calls (calls g0) @ [Enter None, ListTools (Inr tls), NewAgent a0])"

text \<open>A request has started once its generator has been resumed.\<close>

definition started :: "task \<Rightarrow> bool" where
  "started t = (case status t of Created \<Rightarrow> False | _ \<Rightarrow> True)"

definition single_construction ::
  "globals \<Rightarrow> Agent \<Rightarrow> tool list \<Rightarrow> globals \<times> task list \<Rightarrow> bool" where
  "single_construction g0 a0 tls c =
     (case c of (g, ts) \<Rightarrow>
        list_all (\<lambda>t. if started t then current_agent t = Some a0 else True) ts \<and>
        (if list_ex started ts then built g0 a0 tls g else g = g0))"

text \<open>How a generator ends when its stream ends.\<close>

definition ended :: "exn option \<Rightarrow> status" where
  "ended err = (case err of None \<Rightarrow> Returned | Some e \<Rightarrow> Raised e)"

section \<open>Providers and states used as examples\<close>

definition documentation_tools :: "tool list" where
  "documentation_tools = [''read_documentation'', ''search_documentation'']"

definition spec_units :: "pydict list" where
  "spec_units =
     [[''x'' \<mapsto> JInt 1], [''event'' \<mapsto> JStr ''a''], [''event'' \<mapsto> JStr ''b''], [''y'' \<mapsto> JInt 2]]"

text \<open>
  The client refuses \<^verbatim>\<open>__enter__\<close> while a context it has entered is still open.
\<close>

definition session_running :: exn where
  "session_running = ''the client session is currently running''"

definition guarded_enter :: "call list \<Rightarrow> exn option" where
  "guarded_enter cs = (if exited cs < entered cs then Some session_running else None)"

text \<open>A provider that always answers, and an agent that streams the four units above.\<close>

definition provider_up :: env where
  "provider_up =
     \<lparr>enter_outcome = guarded_enter,
      list_tools_outcome = (\<lambda>cs. Inr documentation_tools),
      stream_outcome = (\<lambda>cs a p. (spec_units, None)),
      exit_outcome = (\<lambda>cs. None)\<rparr>"

text \<open>A provider that cannot be started.\<close>

definition provider_down :: env where
  "provider_down = provider_up\<lparr>enter_outcome := (\<lambda>cs. Some ''ProviderUnavailable'')\<rparr>"

text \<open>A provider that cannot be started at the first attempt, and can be afterwards.\<close>

definition provider_late :: env where
  "provider_late =
     provider_up\<lparr>enter_outcome :=
       (\<lambda>cs. if filter is_Enter cs = [] then Some ''ProviderUnavailable''
             else guarded_enter cs)\<rparr>"

text \<open>A provider whose first tool enumeration fails and whose later ones succeed.\<close>

definition provider_flaky :: env where
  "provider_flaky =
     provider_up\<lparr>list_tools_outcome :=
       (\<lambda>cs. if filter is_ListTools cs = [] then Inl ''ProtocolError''
             else Inr documentation_tools)\<rparr>"

definition first_agent :: Agent where
  "first_agent = \<lparr>agent_id = 0, model = MODEL_ID, tools = documentation_tools\<rparr>"

definition constructed :: globals where
  "constructed =
     \<lparr>agent = Some first_agent, mcp_context_manager = Some Stdio_mcp_client,
      calls = [Enter None, ListTools (Inr documentation_tools), NewAgent first_agent]\<rparr>"

definition half_constructed :: globals where
  "half_constructed =
     \<lparr>agent = None, mcp_context_manager = Some Stdio_mcp_client,
      calls = [Enter None, ListTools (Inl ''ProtocolError'')]\<rparr>"

definition refused :: globals where
  "refused =
     \<lparr>agent = None, mcp_context_manager = Some Stdio_mcp_client,
      calls = [Enter None, ListTools (Inl ''ProtocolError''), Enter (Some session_running)]\<rparr>"

definition not_started :: globals where
  "not_started =
     \<lparr>agent = None, mcp_context_manager = None,
      calls = [Enter (Some ''ProviderUnavailable'')]\<rparr>"

section \<open>The initializer, case by case\<close>

lemma initialize_agent_existing:
  "agent g = Some a \<Longrightarrow> initialize_agent E g = (Inr a, g)"
  by (simp add: initialize_agent_def)

lemma initialize_agent_enter_raises:
  "agent g = None \<Longrightarrow> enter_outcome E (calls g) = Some e \<Longrightarrow>
   initialize_agent E g = (Inl e, log (Enter (Some e)) g)"
  by (simp add: initialize_agent_def mcp_enter_def)

lemma initialize_agent_list_raises:
  "agent g = None \<Longrightarrow> enter_outcome E (calls g) = None \<Longrightarrow>
   list_tools_outcome E (calls g @ [Enter None]) = Inl e \<Longrightarrow>
   initialize_agent E g =
     (Inl e, g\<lparr>mcp_context_manager := Some Stdio_mcp_client,
               calls := calls g @ [Enter None, ListTools (Inl e)]\<rparr>)"
  by (simp add: initialize_agent_def mcp_enter_def list_tools_sync_def log_def)

lemma initialize_agent_constructs:
  "agent g = None \<Longrightarrow> enter_outcome E (calls g) = None \<Longrightarrow>
   list_tools_outcome E (calls g @ [Enter None]) = Inr ts \<Longrightarrow>
   a = \<lparr>agent_id = length (filter is_NewAgent (calls g)), model = MODEL_ID, tools = ts\<rparr> \<Longrightarrow>
   initialize_agent E g =
     (Inr a, g\<lparr>agent := Some a, mcp_context_manager := Some Stdio_mcp_client,
               calls := calls g @ [Enter None, ListTools (Inr ts), NewAgent a]\<rparr>)"
  by (simp add: initialize_agent_def mcp_enter_def list_tools_sync_def new_Agent_def log_def
      is_NewAgent_def Let_def)

text \<open>The four ways through the initializer, as a case rule.\<close>

lemma initialize_agent_cases:
  obtains a where "agent g = Some a" "initialize_agent E g = (Inr a, g)"
  | e where "agent g = None" "enter_outcome E (calls g) = Some e"
      "initialize_agent E g = (Inl e, log (Enter (Some e)) g)"
  | e where "agent g = None" "enter_outcome E (calls g) = None"
      "list_tools_outcome E (calls g @ [Enter None]) = Inl e"
      "initialize_agent E g =
        (Inl e, g\<lparr>mcp_context_manager := Some Stdio_mcp_client,
                  calls := calls g @ [Enter None, ListTools (Inl e)]\<rparr>)"
  | ts a where "agent g = None" "enter_outcome E (calls g) = None"
      "list_tools_outcome E (calls g @ [Enter None]) = Inr ts"
      "a = \<lparr>agent_id = length (filter is_NewAgent (calls g)), model = MODEL_ID, tools = ts\<rparr>"
      "initialize_agent E g =
        (Inr a, g\<lparr>agent := Some a, mcp_context_manager := Some Stdio_mcp_client,
                  calls := calls g @ [Enter None, ListTools (Inr ts), NewAgent a]\<rparr>)"
proof (cases "agent g")
  case (Some a)
  then show ?thesis using that(1) initialize_agent_existing by blast
next
  case None
  show ?thesis
  proof (cases "enter_outcome E (calls g)")
    case (Some e)
    then show ?thesis using None that(2) initialize_agent_enter_raises by blast
  next
    case en: None
    show ?thesis
    proof (cases "list_tools_outcome E (calls g @ [Enter None])")
      case (Inl e)
      then show ?thesis using None en that(3) initialize_agent_list_raises by blast
    next
      case (Inr ts)
      then show ?thesis using None en that(4) initialize_agent_constructs by blast
    qed
  qed
qed

lemma initialize_agent_Inr_stores:
  "initialize_agent E g = (Inr a, g1) \<Longrightarrow> agent g1 = Some a"
  by (rule initialize_agent_cases [of g E]) auto

lemma initialize_agent_Inl_agent:
  "initialize_agent E g = (Inl e, g1) \<Longrightarrow> agent g = None \<and> agent g1 = None"
  by (rule initialize_agent_cases [of g E]) (auto simp: log_def)

lemma initialize_agent_Inl_no_NewAgent:
  "initialize_agent E g = (Inl e, g1) \<Longrightarrow>
   filter is_NewAgent (calls g1) = filter is_NewAgent (calls g)"
  by (rule initialize_agent_cases [of g E]) (auto simp: log_def is_NewAgent_def)

section \<open>The entrypoint, case by case\<close>

lemma relay_filter: "relay units = filter (contains ''event'') units"
  by (induction units) simp_all

lemma contains_dom: "contains k d = (k \<in> dom d)"
  by (auto simp: contains_def split: option.splits)

lemma invoke_init_fails:
  "initialize_agent E g = (Inl e, g1) \<Longrightarrow>
   invoke E p g = (\<lparr>events = [], raised = Some e\<rparr>, g1)"
  by (simp add: invoke_def)

lemma invoke_init_ok:
  "initialize_agent E g = (Inr a, g1) \<Longrightarrow>
   stream_outcome E (calls g1) a (dict_get p ''prompt'' (JStr fallback_prompt)) = (units, err) \<Longrightarrow>
   invoke E p g =
     (\<lparr>events = relay units, raised = err\<rparr>,
      log (StreamAsync a (dict_get p ''prompt'' (JStr fallback_prompt))) g1)"
  by (simp add: invoke_def stream_async_def Let_def)

lemma resume_init_fails:
  "initialize_agent E g = (Inl e, g1) \<Longrightarrow> status t = Created \<Longrightarrow>
   resume E t g = (t\<lparr>status := Raised e\<rparr>, g1)"
  by (simp add: resume_def)

lemma drive_Raised: "status t = Raised e \<Longrightarrow> drive E n t g = (t, g)"
  by (induction n) (simp_all add: resume_def)

section \<open>The stored agent is never replaced\<close>

lemma resume_keeps_agent:
  "agent g = Some a \<Longrightarrow> agent (snd (resume E t g)) = Some a"
  by (cases "status t")
     (auto simp: resume_def initialize_agent_existing stream_async_def log_def Let_def
           split: prod.splits list.splits option.splits)

lemma step_keeps_agent:
  "agent (fst c) = Some a \<Longrightarrow> agent (fst (step E i c)) = Some a"
  using resume_keeps_agent [of "fst c" a E "snd c ! i"]
  by (cases c) (auto simp: step_def split: prod.splits)

lemma run_keeps_agent:
  "agent (fst c) = Some a \<Longrightarrow> agent (fst (run E sched c)) = Some a"
  by (induction sched arbitrary: c) (simp_all add: step_keeps_agent)

section \<open>The example providers, evaluated\<close>

lemma provider_up_constructs:
  "initialize_agent provider_up module_init = (Inr first_agent, constructed)"
  by (simp add: initialize_agent_def mcp_enter_def list_tools_sync_def new_Agent_def log_def
      Let_def provider_up_def module_init_def first_agent_def constructed_def is_NewAgent_def
      guarded_enter_def entered_def exited_def)

lemma provider_flaky_fails:
  "initialize_agent provider_flaky module_init = (Inl ''ProtocolError'', half_constructed)"
  by (simp add: initialize_agent_def mcp_enter_def list_tools_sync_def log_def
      Let_def provider_up_def provider_flaky_def module_init_def half_constructed_def
      is_ListTools_def guarded_enter_def entered_def exited_def)

lemma provider_flaky_refuses:
  "initialize_agent provider_flaky half_constructed = (Inl session_running, refused)"
  by (simp add: initialize_agent_def mcp_enter_def log_def
      Let_def provider_up_def provider_flaky_def half_constructed_def refused_def
      guarded_enter_def entered_def exited_def is_Exit_def)

lemma provider_late_fails:
  "initialize_agent provider_late module_init = (Inl ''ProviderUnavailable'', not_started)"
  by (simp add: initialize_agent_def mcp_enter_def log_def
      Let_def provider_up_def provider_late_def module_init_def not_started_def)

lemma provider_late_retry:
  "initialize_agent provider_late not_started =
     (Inr first_agent,
      \<lparr>agent = Some first_agent, mcp_context_manager = Some Stdio_mcp_client,
       calls = [Enter (Some ''ProviderUnavailable''), Enter None,
                ListTools (Inr documentation_tools), NewAgent first_agent]\<rparr>)"
  by (simp add: initialize_agent_def mcp_enter_def list_tools_sync_def new_Agent_def log_def
      Let_def provider_up_def provider_late_def not_started_def first_agent_def
      is_Enter_def is_NewAgent_def guarded_enter_def entered_def exited_def is_Exit_def)

lemma provider_down_fails:
  "initialize_agent provider_down module_init =
     (Inl ''ProviderUnavailable'', log (Enter (Some ''ProviderUnavailable'')) module_init)"
  by (simp add: initialize_agent_def mcp_enter_def
      Let_def provider_up_def provider_down_def module_init_def)

section \<open>A request resumed until it ends\<close>

lemma drive_Returned: "status t = Returned \<Longrightarrow> drive E n t g = (t, g)"
  by (induction n) (simp_all add: resume_def)

lemma drive_ended: "status t = ended err \<Longrightarrow> drive E n t g = (t, g)"
  by (cases err) (simp_all add: ended_def drive_Returned drive_Raised)

lemma drive_Running:
  "status t = Running \<Longrightarrow> agent_stream t = (units, err) \<Longrightarrow>
   drive E (Suc (length units)) t g =
     (t\<lparr>status := ended err, agent_stream := ([], err), yielded := yielded t @ relay units\<rparr>, g)"
proof (induction units arbitrary: t)
  case Nil
  then show ?case
    by (cases err) (simp_all add: resume_def ended_def)
next
  case (Cons event rest)
  let ?t' = "if contains ''event'' event
    then t\<lparr>agent_stream := (rest, err), yielded := yielded t @ [event]\<rparr>
    else t\<lparr>agent_stream := (rest, err)\<rparr>"
  have r: "resume E t g = (?t', g)"
    using Cons.prems by (simp add: resume_def)
  have "status ?t' = Running" "agent_stream ?t' = (rest, err)"
    using Cons.prems by simp_all
  from Cons.IH [OF this] r show ?case
    by simp
qed

text \<open>
  Resumed often enough with nothing else running, a request yields the events of
  \<open>invoke\<close>, ends as \<open>invoke\<close> does and leaves the same module state.
\<close>

lemma drive_invoke:
  assumes "initialize_agent E g = (Inr a, g1)"
    and "stream_outcome E (calls g1) a (dict_get p ''prompt'' (JStr fallback_prompt)) = (units, err)"
  shows "fst (invoke E p g) =
           \<lparr>events = yielded (fst (drive E (Suc (Suc (length units))) (new_task p) g)),
            raised = err\<rparr> \<and>
         status (fst (drive E (Suc (Suc (length units))) (new_task p) g)) = ended err \<and>
         snd (drive E (Suc (Suc (length units))) (new_task p) g) = snd (invoke E p g)"
proof -
  let ?t = "(new_task p)\<lparr>status := Running, current_agent := Some a, agent_stream := (units, err)\<rparr>"
  let ?g = "log (StreamAsync a (dict_get p ''prompt'' (JStr fallback_prompt))) g1"
  have "resume E (new_task p) g = (?t, ?g)"
    using assms by (simp add: resume_def new_task_def stream_async_def Let_def)
  moreover have "drive E (Suc (length units)) ?t ?g =
     (?t\<lparr>status := ended err, agent_stream := ([], err), yielded := yielded ?t @ relay units\<rparr>, ?g)"
    by (rule drive_Running) simp_all
  ultimately show ?thesis
    using invoke_init_ok [OF assms] by (simp add: new_task_def)
qed

section \<open>At most one agent is ever made\<close>

lemma initialize_agent_agent_recorded:
  "agent_recorded g \<Longrightarrow> agent_recorded (snd (initialize_agent E g))"
  by (rule initialize_agent_cases [of g E])
     (auto simp: agent_recorded_def log_def is_NewAgent_def)

lemma resume_agent_recorded:
  "agent_recorded g \<Longrightarrow> agent_recorded (snd (resume E t g))"
proof (cases "status t")
  case Created
  assume c: "agent_recorded g"
  obtain r g1 where i: "initialize_agent E g = (r, g1)"
    by (cases "initialize_agent E g")
  then have "agent_recorded g1"
    using initialize_agent_agent_recorded [OF c, of E] by simp
  then show ?thesis
    using Created i
    by (cases r) (auto simp: resume_def stream_async_def log_def Let_def agent_recorded_def
        is_NewAgent_def split: prod.splits)
qed (auto simp: resume_def split: prod.splits list.splits option.splits)

lemma step_agent_recorded:
  "agent_recorded (fst c) \<Longrightarrow> agent_recorded (fst (step E i c))"
  using resume_agent_recorded [of "fst c" E "snd c ! i"]
  by (cases c) (auto simp: step_def split: prod.splits)

lemma run_agent_recorded:
  "agent_recorded (fst c) \<Longrightarrow> agent_recorded (fst (run E sched c))"
  by (induction sched arbitrary: c) (simp_all add: step_agent_recorded)

lemma at_most_one_agent:
  "length (filter is_NewAgent (calls (fst (run E sched (module_init, ts))))) \<le> 1"
proof -
  have "agent_recorded module_init"
    by (simp add: agent_recorded_def module_init_def)
  then have "agent_recorded (fst (run E sched (module_init, ts)))"
    using run_agent_recorded [of "(module_init, ts)" E sched] by simp
  then show ?thesis
    by (simp add: agent_recorded_def split: option.splits)
qed

section \<open>The context manager variable follows the provider\<close>

lemma initialize_agent_context_tracked:
  "context_tracked g \<Longrightarrow> context_tracked (snd (initialize_agent E g))"
  by (rule initialize_agent_cases [of g E])
     (auto simp: context_tracked_def entered_def exited_def log_def is_Exit_def)

lemma resume_context_tracked:
  "context_tracked g \<Longrightarrow> context_tracked (snd (resume E t g))"
proof (cases "status t")
  case Created
  assume c: "context_tracked g"
  obtain r g1 where i: "initialize_agent E g = (r, g1)"
    by (cases "initialize_agent E g")
  then have "context_tracked g1"
    using initialize_agent_context_tracked [OF c, of E] by simp
  then show ?thesis
    using Created i
    by (cases r) (auto simp: resume_def stream_async_def log_def Let_def context_tracked_def
        entered_def exited_def is_Exit_def split: prod.splits)
qed (auto simp: resume_def split: prod.splits list.splits option.splits)

lemma step_context_tracked:
  "context_tracked (fst c) \<Longrightarrow> context_tracked (fst (step E i c))"
  using resume_context_tracked [of "fst c" E "snd c ! i"]
  by (cases c) (auto simp: step_def split: prod.splits)

lemma run_context_tracked:
  "context_tracked (fst c) \<Longrightarrow> context_tracked (fst (run E sched c))"
  by (induction sched arbitrary: c) (simp_all add: step_context_tracked)

lemma module_init_context_tracked: "context_tracked module_init"
  by (simp add: context_tracked_def module_init_def entered_def exited_def)

section \<open>A client that refuses to be entered twice\<close>

lemma initialize_agent_single_context:
  assumes guard: "\<And>cs. exited cs < entered cs \<Longrightarrow> enter_outcome E cs \<noteq> None"
    and inv: "single_context g"
  shows "single_context (snd (initialize_agent E g))"
proof -
  have t: "context_tracked (snd (initialize_agent E g))"
    using inv by (simp add: single_context_def initialize_agent_context_tracked)
  have e: "exited (calls g) = 0" "entered (calls g) \<le> 1"
    using inv by (simp_all add: single_context_def context_tracked_def)
  have fresh: "entered (calls g) = 0" if "enter_outcome E (calls g) = None"
    using guard [of "calls g"] that e by auto
  have "entered (calls (snd (initialize_agent E g))) \<le> 1"
    by (rule initialize_agent_cases [of g E])
       (use e fresh in \<open>auto simp: entered_def log_def\<close>)
  then show ?thesis
    using t by (simp add: single_context_def)
qed

lemma resume_single_context:
  assumes guard: "\<And>cs. exited cs < entered cs \<Longrightarrow> enter_outcome E cs \<noteq> None"
    and inv: "single_context g"
  shows "single_context (snd (resume E t g))"
proof (cases "status t")
  case Created
  obtain r g1 where i: "initialize_agent E g = (r, g1)"
    by (cases "initialize_agent E g")
  then have "single_context g1"
    using initialize_agent_single_context [OF guard inv] by simp
  then show ?thesis
    using Created i
    by (cases r) (auto simp: resume_def stream_async_def log_def Let_def single_context_def
        context_tracked_def entered_def exited_def is_Exit_def split: prod.splits)
qed (use inv in \<open>auto simp: resume_def split: prod.splits list.splits option.splits\<close>)

lemma step_single_context:
  assumes guard: "\<And>cs. exited cs < entered cs \<Longrightarrow> enter_outcome E cs \<noteq> None"
    and inv: "single_context (fst c)"
  shows "single_context (fst (step E i c))"
  using resume_single_context [OF guard inv, of "snd c ! i"]
  by (cases c) (use inv in \<open>auto simp: step_def split: prod.splits\<close>)

lemma run_single_context:
  assumes guard: "\<And>cs. exited cs < entered cs \<Longrightarrow> enter_outcome E cs \<noteq> None"
  shows "single_context (fst c) \<Longrightarrow> single_context (fst (run E sched c))"
  by (induction sched arbitrary: c) (simp_all add: step_single_context [OF guard])

lemma module_init_single_context: "single_context module_init"
  by (simp add: single_context_def module_init_context_tracked)
     (simp add: module_init_def entered_def)

lemma length_filter_take: "length (filter P (take n xs)) \<le> length (filter P xs)"
proof -
  have "filter P xs = filter P (take n xs) @ filter P (drop n xs)"
    by (metis append_take_drop_id filter_append)
  then have "length (filter P xs) =
      length (filter P (take n xs)) + length (filter P (drop n xs))"
    by (metis length_append)
  then show ?thesis by simp
qed

lemma shutdown_calls:
  "calls (snd (shutdown E g)) = calls g \<or>
   calls (snd (shutdown E g)) = calls g @ [Exit (exit_outcome E (calls g))]"
  by (simp add: shutdown_def mcp_exit_def log_def Let_def split: option.splits)

section \<open>Requests that have started\<close>

lemma started_simps:
  "started t = (status t \<noteq> Created)"
  by (simp add: started_def split: status.splits)

lemma resume_started:
  "started t \<Longrightarrow> resume E t g = (t', g') \<Longrightarrow>
   g' = g \<and> started t' \<and> current_agent t' = current_agent t"
  by (cases "status t")
     (auto simp: resume_def started_simps split: prod.splits list.splits option.splits if_splits)

lemma length_step: "length (snd (step E i c)) = length (snd c)"
  by (cases c) (simp add: step_def split: prod.splits)

lemma length_run: "length (snd (run E sched c)) = length (snd c)"
  by (induction sched arbitrary: c) (simp_all add: length_step)

lemma resume_starts: "started (fst (resume E t g))"
  by (cases "status t")
     (auto simp: resume_def started_simps Let_def
           split: prod.splits list.splits option.splits sum.splits)

lemma step_starts: "i < length (snd c) \<Longrightarrow> started (snd (step E i c) ! i)"
  using resume_starts [of E "snd c ! i" "fst c"]
  by (cases c) (auto simp: step_def split: prod.splits)

lemma step_stays_started:
  "j < length (snd c) \<Longrightarrow> started (snd c ! j) \<Longrightarrow> started (snd (step E i c) ! j)"
  using resume_starts [of E "snd c ! i" "fst c"]
  by (cases c) (auto simp: step_def nth_list_update split: prod.splits)

lemma run_stays_started:
  "j < length (snd c) \<Longrightarrow> started (snd c ! j) \<Longrightarrow> started (snd (run E sched c) ! j)"
  by (induction sched arbitrary: c) (simp_all add: step_stays_started length_step)

lemma run_starts:
  "j \<in> set sched \<Longrightarrow> j < length (snd c) \<Longrightarrow> started (snd (run E sched c) ! j)"
proof (induction sched arbitrary: c)
  case Nil
  then show ?case by simp
next
  case (Cons i sched)
  show ?case
  proof (cases "j = i")
    case True
    then have "started (snd (step E i c) ! j)"
      using Cons.prems(2) by (simp add: step_starts)
    then show ?thesis
      using Cons.prems(2) by (simp add: run_stays_started length_step)
  next
    case False
    then have "j \<in> set sched" using Cons.prems(1) by simp
    then show ?thesis
      using Cons.IH [of "step E i c"] Cons.prems(2) by (simp add: length_step)
  qed
qed

lemma run_idle:
  "\<forall>i\<in>set sched. \<not> i < length (snd c) \<Longrightarrow> run E sched c = c"
  by (induction sched arbitrary: c) (auto simp: step_def split: prod.splits)

section \<open>One construction serves every request\<close>

lemma resume_Created_built:
  assumes "built g0 a0 tls g" and "status t = Created" and "resume E t g = (t', g')"
  shows "built g0 a0 tls g' \<and> started t' \<and> current_agent t' = Some a0"
  using assms
  by (auto simp: resume_def built_def initialize_agent_existing stream_async_def log_def
      Let_def started_simps construction_calls_def is_StreamAsync_def split: prod.splits)

lemma resume_Created_first:
  assumes "agent g0 = None" and "enter_outcome E (calls g0) = None"
    and "list_tools_outcome E (calls g0 @ [Enter None]) = Inr tls"
    and "a0 = \<lparr>agent_id = length (filter is_NewAgent (calls g0)), model = MODEL_ID, tools = tls\<rparr>"
    and "status t = Created" and "resume E t g0 = (t', g')"
  shows "built g0 a0 tls g' \<and> started t' \<and> current_agent t' = Some a0"
  using assms(5,6) initialize_agent_constructs [OF assms(1-4)]
  by (auto simp: resume_def built_def stream_async_def log_def
      Let_def started_simps construction_calls_def is_StreamAsync_def split: prod.splits)

lemma step_single_construction:
  assumes ok: "agent g0 = None" "enter_outcome E (calls g0) = None"
      "list_tools_outcome E (calls g0 @ [Enter None]) = Inr tls"
      "a0 = \<lparr>agent_id = length (filter is_NewAgent (calls g0)), model = MODEL_ID, tools = tls\<rparr>"
    and inv: "single_construction g0 a0 tls c"
  shows "single_construction g0 a0 tls (step E i c)"
proof (cases c)
  case (Pair g ts)
  show ?thesis
  proof (cases "i < length ts")
    case False
    then show ?thesis using inv Pair by (simp add: step_def)
  next
    case True
    obtain t' g' where r: "resume E (ts ! i) g = (t', g')"
      by (cases "resume E (ts ! i) g")
    have s: "step E i c = (g', ts[i := t'])"
      using Pair True r by (simp add: step_def)
    have ti: "ts ! i \<in> set ts"
      using True by simp
    have all: "\<forall>t\<in>set ts. started t \<longrightarrow> current_agent t = Some a0"
      using inv Pair by (simp add: single_construction_def list_all_iff)
    have new: "t' \<in> set (ts[i := t'])"
      using True by (simp add: set_update_memI)
    have sub: "set (ts[i := t']) \<subseteq> insert t' (set ts)"
      by (rule set_update_subset_insert)
    have key: "built g0 a0 tls g' \<and> started t' \<and> current_agent t' = Some a0"
    proof (cases "started (ts ! i)")
      case st: True
      then have "list_ex started ts"
        using ti by (auto simp: list_ex_iff)
      then have b: "built g0 a0 tls g"
        using inv Pair by (simp add: single_construction_def)
      from resume_started [OF st r] st all ti b show ?thesis by simp
    next
      case nst: False
      then have cr: "status (ts ! i) = Created"
        by (simp add: started_simps)
      show ?thesis
      proof (cases "list_ex started ts")
        case True
        then have "built g0 a0 tls g"
          using inv Pair by (simp add: single_construction_def)
        then show ?thesis using resume_Created_built [OF _ cr r] by simp
      next
        case False
        then have "g = g0"
          using inv Pair by (simp add: single_construction_def)
        then show ?thesis using resume_Created_first [OF ok cr] r by simp
      qed
    qed
    have "\<forall>t\<in>set (ts[i := t']). started t \<longrightarrow> current_agent t = Some a0"
      using all key sub by auto
    moreover have "list_ex started (ts[i := t'])"
      using key new by (auto simp: list_ex_iff)
    ultimately show ?thesis
      using s key by (simp add: single_construction_def list_all_iff)
  qed
qed

lemma run_single_construction:
  assumes "agent g0 = None" "enter_outcome E (calls g0) = None"
      "list_tools_outcome E (calls g0 @ [Enter None]) = Inr tls"
      "a0 = \<lparr>agent_id = length (filter is_NewAgent (calls g0)), model = MODEL_ID, tools = tls\<rparr>"
  shows "single_construction g0 a0 tls c \<Longrightarrow> single_construction g0 a0 tls (run E sched c)"
  by (induction sched arbitrary: c) (simp_all add: step_single_construction [OF assms])

lemma single_construction_initially:
  "single_construction g0 a0 tls (g0, map new_task ps)"
  by (simp add: single_construction_def list_all_iff list_ex_iff started_def new_task_def)

lemma filter_construction_calls:
  "(\<And>c. P c \<Longrightarrow> \<not> is_StreamAsync c) \<Longrightarrow> filter P (construction_calls cs) = filter P cs"
  by (induction cs) (auto simp: construction_calls_def)

section \<open>Single construction\<close>

text \<open>
  C1. \<open>N\<close> requests are created while no agent is stored, and the provider's next
  \<^verbatim>\<open>__enter__\<close> and \<^verbatim>\<open>list_tools_sync\<close> succeed. In whatever order the host resumes
  the requests: every request that has started holds the same agent; as soon as one request
  has started, \<^verbatim>\<open>__enter__\<close>, \<^verbatim>\<open>list_tools_sync\<close> and the \<^verbatim>\<open>Agent\<close> constructor
  have each been called exactly once more than before; and when every request has been resumed
  at least once, all \<open>N\<close> hold that agent.
\<close>

theorem C1_single_construction:
  assumes "agent g0 = None"
    and "enter_outcome E (calls g0) = None"
    and "list_tools_outcome E (calls g0 @ [Enter None]) = Inr tls"
    and "a0 = \<lparr>agent_id = length (filter is_NewAgent (calls g0)), model = MODEL_ID, tools = tls\<rparr>"
    and "run E sched (g0, map new_task ps) = (g, ts)"
  shows "length ts = length ps \<and>
         (\<forall>t\<in>set ts. started t \<longrightarrow> current_agent t = Some a0) \<and>
         ((\<forall>i<length ps. i \<in> set sched) \<longrightarrow> (\<forall>t\<in>set ts. current_agent t = Some a0)) \<and>
         ((\<exists>i\<in>set sched. i < length ps) \<longrightarrow>
            filter is_Enter (calls g) = filter is_Enter (calls g0) @ [Enter None] \<and>
            filter is_ListTools (calls g) = filter is_ListTools (calls g0) @ [ListTools (Inr tls)] \<and>
            filter is_NewAgent (calls g) = filter is_NewAgent (calls g0) @ [NewAgent a0] \<and>
            agent g = Some a0) \<and>
         ((\<forall>i\<in>set sched. \<not> i < length ps) \<longrightarrow> g = g0)"
proof -
  have len: "length ts = length ps"
    using length_run [of E sched "(g0, map new_task ps)"] assms(5) by simp
  have inv: "single_construction g0 a0 tls (g, ts)"
    using run_single_construction [OF assms(1-4) single_construction_initially]
      assms(5) by metis
  then have observed: "\<forall>t\<in>set ts. started t \<longrightarrow> current_agent t = Some a0"
    by (simp add: single_construction_def list_all_iff)
  have st: "\<And>j. j \<in> set sched \<Longrightarrow> j < length ps \<Longrightarrow> started (ts ! j)"
    using run_starts [of _ sched "(g0, map new_task ps)" E] assms(5) by simp
  have everyone: "\<forall>t\<in>set ts. current_agent t = Some a0" if "\<forall>i<length ps. i \<in> set sched"
  proof
    fix t assume "t \<in> set ts"
    then obtain j where "j < length ts" "t = ts ! j"
      by (auto simp: in_set_conv_nth)
    then show "current_agent t = Some a0"
      using that st [of j] observed len by simp
  qed
  have once: "filter is_Enter (calls g) = filter is_Enter (calls g0) @ [Enter None] \<and>
      filter is_ListTools (calls g) = filter is_ListTools (calls g0) @ [ListTools (Inr tls)] \<and>
      filter is_NewAgent (calls g) = filter is_NewAgent (calls g0) @ [NewAgent a0] \<and>
      agent g = Some a0" if some: "\<exists>i\<in>set sched. i < length ps"
  proof -
    obtain j where "j \<in> set sched" "j < length ps"
      using some by blast
    then have "started (ts ! j)" "ts ! j \<in> set ts"
      using st len by simp_all
    then have "list_ex started ts"
      by (auto simp: list_ex_iff)
    then have b: "built g0 a0 tls g"
      using inv by (simp add: single_construction_def)
    then have cc: "construction_calls (calls g) =
        construction_calls (calls g0) @ [Enter None, ListTools (Inr tls), NewAgent a0]"
      by (simp add: built_def)
    have "filter is_Enter (construction_calls (calls g)) = filter is_Enter (calls g)"
       "filter is_Enter (construction_calls (calls g0)) = filter is_Enter (calls g0)"
       "filter is_ListTools (construction_calls (calls g)) = filter is_ListTools (calls g)"
       "filter is_ListTools (construction_calls (calls g0)) = filter is_ListTools (calls g0)"
       "filter is_NewAgent (construction_calls (calls g)) = filter is_NewAgent (calls g)"
       "filter is_NewAgent (construction_calls (calls g0)) = filter is_NewAgent (calls g0)"
      by (rule filter_construction_calls;
          simp add: is_Enter_def is_ListTools_def is_NewAgent_def is_StreamAsync_def
            split: call.splits)+
    then have "filter is_Enter (calls g) = filter is_Enter (calls g0) @ [Enter None]"
      "filter is_ListTools (calls g) = filter is_ListTools (calls g0) @ [ListTools (Inr tls)]"
      "filter is_NewAgent (calls g) = filter is_NewAgent (calls g0) @ [NewAgent a0]"
      using arg_cong [OF cc, where f = "filter is_Enter"]
        arg_cong [OF cc, where f = "filter is_ListTools"]
        arg_cong [OF cc, where f = "filter is_NewAgent"]
      by (simp_all add: is_Enter_def is_ListTools_def is_NewAgent_def)
    then show ?thesis
      using b by (simp add: built_def)
  qed
  have idle: "g = g0" if "\<forall>i\<in>set sched. \<not> i < length ps"
    using run_idle [of sched "(g0, map new_task ps)" E] that assms(5) by simp
  show ?thesis
    using len observed everyone once idle by blast
qed

theorem C1_single_construction_witness:
  "list_all (\<lambda>t. current_agent t = Some first_agent)
     (snd (run provider_up [2, 0, 2, 1, 0]
        (module_init, map new_task [Map.empty, [''prompt'' \<mapsto> JStr ''What is S3?''], Map.empty]))) \<and>
   filter is_Enter (calls (fst (run provider_up [2, 0, 2, 1, 0]
        (module_init, map new_task [Map.empty, [''prompt'' \<mapsto> JStr ''What is S3?''], Map.empty])))) =
     [Enter None] \<and>
   filter is_NewAgent (calls (fst (run provider_up [2, 0, 2, 1, 0]
        (module_init, map new_task [Map.empty, [''prompt'' \<mapsto> JStr ''What is S3?''], Map.empty])))) =
     [NewAgent first_agent]"
proof -
  let ?ps = "[Map.empty, [''prompt'' \<mapsto> JStr ''What is S3?''], Map.empty] :: pydict list"
  let ?c = "run provider_up [2, 0, 2, 1, 0] (module_init, map new_task ?ps)"
  have 1: "agent module_init = None"
    by (simp add: module_init_def)
  have 2: "enter_outcome provider_up (calls module_init) = None"
    by (simp add: provider_up_def module_init_def guarded_enter_def entered_def exited_def)
  have 3: "list_tools_outcome provider_up (calls module_init @ [Enter None]) = Inr documentation_tools"
    by (simp add: provider_up_def)
  have 4: "first_agent = \<lparr>agent_id = length (filter is_NewAgent (calls module_init)),
      model = MODEL_ID, tools = documentation_tools\<rparr>"
    by (simp add: first_agent_def module_init_def)
  have 5: "run provider_up [2, 0, 2, 1, 0] (module_init, map new_task ?ps) = (fst ?c, snd ?c)"
    by simp
  have 6: "\<forall>i<length ?ps. i \<in> set [2, 0, 2, 1, 0::nat]"
    by (auto simp: less_Suc_eq)
  have 7: "\<exists>i\<in>set [2, 0, 2, 1, 0::nat]. i < length ?ps"
    by simp
  have 8: "calls module_init = []"
    by (simp add: module_init_def)
  show ?thesis
    using C1_single_construction [OF 1 2 3 4 5] 6 7 8
    by (simp add: list_all_iff)
qed

section \<open>Event filtering\<close>

text \<open>
  C2. Once the initializer has supplied the agent, the events the entrypoint yields are
  exactly the units of the agent's stream that contain the key \<^verbatim>\<open>"event"\<close>, in the
  order of arrival; the other units are dropped. For the stream
  \<^verbatim>\<open>[{"x":1}, {"event":"a"}, {"event":"b"}, {"y":2}]\<close> the entrypoint yields
  \<^verbatim>\<open>[{"event":"a"}, {"event":"b"}]\<close>.
\<close>

theorem C2_event_filtering:
  assumes "initialize_agent E g = (Inr a, g1)"
    and "stream_outcome E (calls g1) a (dict_get p ''prompt'' (JStr fallback_prompt)) = (units, err)"
  shows "events (fst (invoke E p g)) = filter (\<lambda>u. ''event'' \<in> dom u) units \<and>
         (units = [[''x'' \<mapsto> JInt 1], [''event'' \<mapsto> JStr ''a''], [''event'' \<mapsto> JStr ''b''],
                   [''y'' \<mapsto> JInt 2]] \<longrightarrow>
          events (fst (invoke E p g)) = [[''event'' \<mapsto> JStr ''a''], [''event'' \<mapsto> JStr ''b'']])"
proof -
  have ev: "events (fst (invoke E p g)) = relay units"
    using invoke_init_ok [OF assms] by simp
  have "relay units = filter (\<lambda>u. ''event'' \<in> dom u) units"
    by (simp add: relay_filter contains_dom [abs_def])
  moreover have "relay [[''x'' \<mapsto> JInt 1], [''event'' \<mapsto> JStr ''a''], [''event'' \<mapsto> JStr ''b''],
                   [''y'' \<mapsto> JInt 2]] = [[''event'' \<mapsto> JStr ''a''], [''event'' \<mapsto> JStr ''b'']]"
    by (simp add: contains_def)
  ultimately show ?thesis using ev by simp
qed

theorem C2_event_filtering_witness:
  "events (fst (invoke provider_up Map.empty module_init)) =
     [[''event'' \<mapsto> JStr ''a''], [''event'' \<mapsto> JStr ''b'']]"
proof -
  have "stream_outcome provider_up (calls constructed) first_agent
          (dict_get Map.empty ''prompt'' (JStr fallback_prompt)) =
        ([[''x'' \<mapsto> JInt 1], [''event'' \<mapsto> JStr ''a''], [''event'' \<mapsto> JStr ''b''],
          [''y'' \<mapsto> JInt 2]], None)"
    by (simp add: provider_up_def spec_units_def)
  from C2_event_filtering [OF provider_up_constructs this] show ?thesis
    by simp
qed

section \<open>The prompt\<close>

text \<open>
  C3. Once the initializer has supplied the agent: for a payload without the key
  \<^verbatim>\<open>"prompt"\<close> the entrypoint calls the agent's streaming generation with the fixed
  fallback string, which is not the empty string, and the only exception the request can then
  end with is one of the stream itself; for a payload with the key it calls the generation
  with the stored value.
\<close>

theorem C3_fallback_prompt:
  assumes "initialize_agent E g = (Inr a, g1)"
  shows "(p ''prompt'' = None \<longrightarrow>
            calls (snd (invoke E p g)) = calls g1 @ [StreamAsync a (JStr fallback_prompt)] \<and>
            raised (fst (invoke E p g)) =
              snd (stream_outcome E (calls g1) a (JStr fallback_prompt))) \<and>
         fallback_prompt \<noteq> '''' \<and>
         (\<forall>v. p ''prompt'' = Some v \<longrightarrow>
            calls (snd (invoke E p g)) = calls g1 @ [StreamAsync a v])"
proof -
  obtain units err where
    s: "stream_outcome E (calls g1) a (dict_get p ''prompt'' (JStr fallback_prompt)) = (units, err)"
    by (cases "stream_outcome E (calls g1) a (dict_get p ''prompt'' (JStr fallback_prompt))")
  have i: "invoke E p g =
     (\<lparr>events = relay units, raised = err\<rparr>,
      log (StreamAsync a (dict_get p ''prompt'' (JStr fallback_prompt))) g1)"
    using invoke_init_ok [OF assms s] .
  have absent: "p ''prompt'' = None \<Longrightarrow>
      dict_get p ''prompt'' (JStr fallback_prompt) = JStr fallback_prompt"
    by (simp add: dict_get_def)
  have present: "\<And>v. p ''prompt'' = Some v \<Longrightarrow>
      dict_get p ''prompt'' (JStr fallback_prompt) = v"
    by (simp add: dict_get_def)
  have "fallback_prompt \<noteq> ''''"
    by (simp add: fallback_prompt_def)
  then show ?thesis
    using i s absent present by (auto simp: log_def)
qed

theorem C3_fallback_prompt_witness:
  "calls (snd (invoke provider_up Map.empty module_init)) =
     [Enter None, ListTools (Inr documentation_tools), NewAgent first_agent,
      StreamAsync first_agent (JStr fallback_prompt)] \<and>
   raised (fst (invoke provider_up Map.empty module_init)) = None \<and>
   calls (snd (invoke provider_up [''prompt'' \<mapsto> JStr ''What is S3?''] module_init)) =
     [Enter None, ListTools (Inr documentation_tools), NewAgent first_agent,
      StreamAsync first_agent (JStr ''What is S3?'')]"
  using C3_fallback_prompt [OF provider_up_constructs, of Map.empty]
    C3_fallback_prompt [OF provider_up_constructs, of "[''prompt'' \<mapsto> JStr ''What is S3?'']"]
  by (simp add: constructed_def provider_up_def)

text \<open>
  C10. Once the initializer has supplied the agent: when the payload has the key
  \<^verbatim>\<open>"prompt"\<close>, whatever its value (\<^verbatim>\<open>null\<close> and the empty string included), the
  entrypoint calls the agent's streaming generation with that value, unchanged.
\<close>

theorem C10_present_prompt_unchanged:
  assumes "initialize_agent E g = (Inr a, g1)"
    and "p ''prompt'' = Some v"
  shows "dict_get p ''prompt'' (JStr fallback_prompt) = v \<and>
         calls (snd (invoke E p g)) = calls g1 @ [StreamAsync a v] \<and>
         fst (invoke E p g) =
           \<lparr>events = relay (fst (stream_outcome E (calls g1) a v)),
            raised = snd (stream_outcome E (calls g1) a v)\<rparr>"
proof -
  have d: "dict_get p ''prompt'' (JStr fallback_prompt) = v"
    using assms(2) by (simp add: dict_get_def)
  obtain units err where s: "stream_outcome E (calls g1) a v = (units, err)"
    by (cases "stream_outcome E (calls g1) a v")
  show ?thesis
    using invoke_init_ok [of E g a g1 p units err] assms(1) s d by (simp add: log_def)
qed

theorem C10_present_prompt_unchanged_witness:
  "calls (snd (invoke provider_up [''prompt'' \<mapsto> JNull] module_init)) =
     [Enter None, ListTools (Inr documentation_tools), NewAgent first_agent,
      StreamAsync first_agent JNull] \<and>
   calls (snd (invoke provider_up [''prompt'' \<mapsto> JStr ''''] module_init)) =
     [Enter None, ListTools (Inr documentation_tools), NewAgent first_agent,
      StreamAsync first_agent (JStr '''')]"
  using C10_present_prompt_unchanged [OF provider_up_constructs, of "[''prompt'' \<mapsto> JNull]" JNull]
    C10_present_prompt_unchanged [OF provider_up_constructs, of "[''prompt'' \<mapsto> JStr '''']" "JStr ''''"]
  by (simp add: constructed_def)

section \<open>Reuse of the stored agent\<close>

text \<open>
  C4. After a call of the initializer has returned an agent, and after any further activity of
  the requests being served, a call of the initializer returns that same agent and leaves the
  module state as it was: nothing is called on the tool provider.
\<close>

theorem C4_idempotent_reuse:
  assumes "initialize_agent E g = (Inr a, g1)"
    and "run E sched (g1, ts) = (g', ts')"
  shows "initialize_agent E g' = (Inr a, g') \<and> calls (snd (initialize_agent E g')) = calls g'"
proof -
  have "agent g1 = Some a"
    using assms(1) by (rule initialize_agent_Inr_stores)
  then have "agent (fst (run E sched (g1, ts))) = Some a"
    using run_keeps_agent [of "(g1, ts)" a E sched] by simp
  then have "agent g' = Some a"
    using assms(2) by simp
  then show ?thesis
    by (simp add: initialize_agent_existing)
qed

theorem C4_idempotent_reuse_witness:
  "initialize_agent provider_up
     (fst (run provider_up [0, 1, 0] (constructed, [new_task Map.empty, new_task Map.empty]))) =
   (Inr first_agent,
    fst (run provider_up [0, 1, 0] (constructed, [new_task Map.empty, new_task Map.empty])))"
proof -
  have "run provider_up [0, 1, 0] (constructed, [new_task Map.empty, new_task Map.empty]) =
    (fst (run provider_up [0, 1, 0] (constructed, [new_task Map.empty, new_task Map.empty])),
     snd (run provider_up [0, 1, 0] (constructed, [new_task Map.empty, new_task Map.empty])))"
    by simp
  from C4_idempotent_reuse [OF provider_up_constructs this] show ?thesis
    by simp
qed

section \<open>Failed construction\<close>

text \<open>
  C6. When no agent is stored and the construction fails, because \<^verbatim>\<open>__enter__\<close> raises
  or because it returns and \<^verbatim>\<open>list_tools_sync\<close> raises, the initializer ends with that
  exception, the variable \<^verbatim>\<open>agent\<close> is what it was, no agent object has been made, and
  the request that called the initializer ends with the same exception.
\<close>

theorem C6_failed_construction_stores_nothing:
  assumes "agent g = None"
    and "enter_outcome E (calls g) = Some e \<or>
         (enter_outcome E (calls g) = None \<and>
          list_tools_outcome E (calls g @ [Enter None]) = Inl e)"
  shows "fst (initialize_agent E g) = Inl e \<and>
         agent (snd (initialize_agent E g)) = agent g \<and>
         filter is_NewAgent (calls (snd (initialize_agent E g))) = filter is_NewAgent (calls g) \<and>
         raised (fst (invoke E p g)) = Some e"
proof -
  obtain g1 where i: "initialize_agent E g = (Inl e, g1)"
    using assms initialize_agent_enter_raises initialize_agent_list_raises by blast
  show ?thesis
    using i initialize_agent_Inl_agent [OF i] initialize_agent_Inl_no_NewAgent [OF i]
      invoke_init_fails [OF i] by simp
qed

theorem C6_failed_construction_stores_nothing_witness:
  "fst (initialize_agent provider_flaky module_init) = Inl ''ProtocolError'' \<and>
   agent (snd (initialize_agent provider_flaky module_init)) = None \<and>
   raised (fst (invoke provider_flaky Map.empty module_init)) = Some ''ProtocolError'' \<and>
   fst (initialize_agent provider_down module_init) = Inl ''ProviderUnavailable'' \<and>
   agent (snd (initialize_agent provider_down module_init)) = None \<and>
   raised (fst (invoke provider_down Map.empty module_init)) = Some ''ProviderUnavailable''"
proof -
  have n: "agent module_init = None"
    by (simp add: module_init_def)
  have f: "enter_outcome provider_flaky (calls module_init) = Some ''ProtocolError'' \<or>
           (enter_outcome provider_flaky (calls module_init) = None \<and>
            list_tools_outcome provider_flaky (calls module_init @ [Enter None]) =
              Inl ''ProtocolError'')"
    by (simp add: module_init_def provider_flaky_def provider_up_def is_ListTools_def
        guarded_enter_def entered_def exited_def)
  have d: "enter_outcome provider_down (calls module_init) = Some ''ProviderUnavailable'' \<or>
           (enter_outcome provider_down (calls module_init) = None \<and>
            list_tools_outcome provider_down (calls module_init @ [Enter None]) =
              Inl ''ProviderUnavailable'')"
    by (simp add: provider_down_def)
  show ?thesis
    using C6_failed_construction_stores_nothing [OF n f, of Map.empty]
      C6_failed_construction_stores_nothing [OF n d, of Map.empty] n
    by simp
qed

text \<open>
  C7. When the initializer ends with an exception, the request ends with that exception and
  has yielded no event: as a whole, and however often the host resumes its generator.
\<close>

theorem C7_no_event_after_failed_initialization:
  assumes "initialize_agent E g = (Inl e, g1)"
  shows "invoke E p g = (\<lparr>events = [], raised = Some e\<rparr>, g1) \<and>
         drive E (Suc n) (new_task p) g = ((new_task p)\<lparr>status := Raised e\<rparr>, g1) \<and>
         yielded ((new_task p)\<lparr>status := Raised e\<rparr>) = []"
proof -
  have "resume E (new_task p) g = ((new_task p)\<lparr>status := Raised e\<rparr>, g1)"
    using assms by (simp add: resume_init_fails new_task_def)
  then have "drive E (Suc n) (new_task p) g = ((new_task p)\<lparr>status := Raised e\<rparr>, g1)"
    by (simp add: drive_Raised [of _ e])
  then show ?thesis
    using invoke_init_fails [OF assms] by (simp add: new_task_def)
qed

theorem C7_no_event_after_failed_initialization_witness:
  "invoke provider_down [''prompt'' \<mapsto> JStr ''What is S3?''] module_init =
     (\<lparr>events = [], raised = Some ''ProviderUnavailable''\<rparr>,
      log (Enter (Some ''ProviderUnavailable'')) module_init) \<and>
   yielded (fst (drive provider_down 3 (new_task [''prompt'' \<mapsto> JStr ''What is S3?''])
     module_init)) = []"
  using C7_no_event_after_failed_initialization [OF provider_down_fails,
      of "[''prompt'' \<mapsto> JStr ''What is S3?'']" 2]
  by (simp add: numeral_3_eq_3 new_task_def)

text \<open>
  C9. After a call of the initializer has ended with an exception, no agent is stored, so the
  next call runs the construction again: the first thing it does is to call
  \<^verbatim>\<open>__enter__\<close>, and when that call and the tool enumeration then succeed, it returns a
  new agent. The initializer is a total function: it cannot hang.
\<close>

theorem C9_retry_after_failure:
  assumes "initialize_agent E g = (Inl e, g1)"
  shows "agent g1 = None \<and>
         take 1 (drop (length (calls g1)) (calls (snd (initialize_agent E g1)))) =
           [Enter (enter_outcome E (calls g1))] \<and>
         (\<forall>ts. enter_outcome E (calls g1) = None \<and>
               list_tools_outcome E (calls g1 @ [Enter None]) = Inr ts \<longrightarrow>
               fst (initialize_agent E g1) =
                 Inr \<lparr>agent_id = length (filter is_NewAgent (calls g1)), model = MODEL_ID,
                      tools = ts\<rparr>)"
proof -
  have n: "agent g1 = None"
    using initialize_agent_Inl_agent [OF assms] by simp
  have "take 1 (drop (length (calls g1)) (calls (snd (initialize_agent E g1)))) =
           [Enter (enter_outcome E (calls g1))]"
    by (rule initialize_agent_cases [of g1 E]) (use n in \<open>auto simp: log_def\<close>)
  moreover have "\<And>ts. enter_outcome E (calls g1) = None \<Longrightarrow>
               list_tools_outcome E (calls g1 @ [Enter None]) = Inr ts \<Longrightarrow>
               fst (initialize_agent E g1) =
                 Inr \<lparr>agent_id = length (filter is_NewAgent (calls g1)), model = MODEL_ID,
                      tools = ts\<rparr>"
    using n by (simp add: initialize_agent_constructs)
  ultimately show ?thesis using n by blast
qed

theorem C9_retry_after_failure_witness:
  "agent not_started = None \<and>
   take 1 (drop 1 (calls (snd (initialize_agent provider_late not_started)))) = [Enter None] \<and>
   fst (initialize_agent provider_late not_started) = Inr first_agent \<and>
   agent half_constructed = None \<and>
   take 1 (drop 2 (calls (snd (initialize_agent provider_flaky half_constructed)))) =
     [Enter (Some session_running)]"
proof -
  have "agent not_started = None \<and>
     take 1 (drop 1 (calls (snd (initialize_agent provider_late not_started)))) = [Enter None] \<and>
     fst (initialize_agent provider_late not_started) = Inr first_agent"
    using C9_retry_after_failure [OF provider_late_fails]
    by (simp add: provider_late_retry)
  moreover have "agent half_constructed = None \<and>
     take 1 (drop 2 (calls (snd (initialize_agent provider_flaky half_constructed)))) =
       [Enter (Some session_running)]"
    using C9_retry_after_failure [OF provider_flaky_fails]
    by (simp add: provider_flaky_refuses) (simp add: half_constructed_def refused_def)
  ultimately show ?thesis
    by blast
qed

section \<open>At most one agent and one open context\<close>

text \<open>
  C5. The client refuses \<^verbatim>\<open>__enter__\<close> while a context it has entered is still open.
  Then, whatever requests are served and in whatever order, and also after the shutdown path
  has run: at every point of the history at most one \<^verbatim>\<open>Agent\<close> has been made and at
  most one \<^verbatim>\<open>__enter__\<close> has returned. This covers a construction that failed after
  \<^verbatim>\<open>__enter__\<close> returned and the retry that follows it: the retry calls
  \<^verbatim>\<open>__enter__\<close> again, and the client refuses.
\<close>

theorem C5_at_most_one_agent_and_context:
  assumes "\<And>cs. exited cs < entered cs \<Longrightarrow> enter_outcome E cs \<noteq> None"
    and "run E sched (module_init, map new_task ps) = (g, ts)"
  shows "length (filter is_NewAgent (calls g)) \<le> 1 \<and>
         entered (calls g) \<le> 1 \<and>
         (\<forall>n. length (filter is_NewAgent (take n (calls (snd (shutdown E g))))) \<le> 1 \<and>
              entered (take n (calls (snd (shutdown E g)))) \<le> 1)"
proof -
  have "single_context (fst (run E sched (module_init, map new_task ps)))"
    using run_single_context [OF assms(1), of "(module_init, map new_task ps)" sched]
    by (simp add: module_init_single_context)
  then have e: "entered (calls g) \<le> 1"
    using assms(2) by (simp add: single_context_def)
  have "agent_recorded module_init"
    by (simp add: agent_recorded_def module_init_def)
  then have "agent_recorded (fst (run E sched (module_init, map new_task ps)))"
    using run_agent_recorded [of "(module_init, map new_task ps)" E sched] by simp
  then have a: "length (filter is_NewAgent (calls g)) \<le> 1"
    using assms(2) by (simp add: agent_recorded_def split: option.splits)
  have "length (filter is_NewAgent (calls (snd (shutdown E g)))) \<le> 1"
    "entered (calls (snd (shutdown E g))) \<le> 1"
    using shutdown_calls [of E g] a e by (auto simp: entered_def is_NewAgent_def)
  then have "length (filter is_NewAgent (take n (calls (snd (shutdown E g))))) \<le> 1 \<and>
      entered (take n (calls (snd (shutdown E g)))) \<le> 1" for n
    using length_filter_take [of is_NewAgent n "calls (snd (shutdown E g))"]
      length_filter_take [of "\<lambda>c. c = Enter None" n "calls (snd (shutdown E g))"]
    by (simp add: entered_def)
  then show ?thesis
    using a e by blast
qed

theorem C5_at_most_one_agent_and_context_witness:
  "entered (calls (fst (run provider_flaky [0, 1]
      (module_init, map new_task [Map.empty, Map.empty])))) = 1 \<and>
   filter is_NewAgent (calls (fst (run provider_flaky [0, 1]
      (module_init, map new_task [Map.empty, Map.empty])))) = [] \<and>
   map status (snd (run provider_flaky [0, 1]
      (module_init, map new_task [Map.empty, Map.empty]))) =
     [Raised ''ProtocolError'', Raised session_running]"
proof -
  let ?c = "run provider_flaky [0, 1] (module_init, map new_task [Map.empty, Map.empty])"
  have guard: "\<And>cs. exited cs < entered cs \<Longrightarrow> enter_outcome provider_flaky cs \<noteq> None"
    by (simp add: provider_flaky_def provider_up_def guarded_enter_def)
  have r: "run provider_flaky [0, 1] (module_init, map new_task [Map.empty, Map.empty]) =
      (fst ?c, snd ?c)"
    by simp
  have once: "1 \<le> entered (calls (fst ?c))"
    by code_simp
  have none: "filter is_NewAgent (calls (fst ?c)) = []"
    by code_simp
  have st: "map status (snd ?c) = [Raised ''ProtocolError'', Raised session_running]"
    by code_simp
  have "entered (calls (fst ?c)) \<le> 1"
    using C5_at_most_one_agent_and_context [OF guard r] by blast
  then have "entered (calls (fst ?c)) = 1"
    using once by simp
  then show ?thesis
    using none st by blast
qed

section \<open>Shutdown\<close>

text \<open>
  C8. For a whole run of the main guard, whatever requests were served and in whatever
  order: \<^verbatim>\<open>__exit__\<close> has been called once if some \<^verbatim>\<open>__enter__\<close> ever returned, and
  not at all otherwise; in that second case, and in particular when no request was ever
  resumed, the shutdown path changes nothing and raises nothing.
\<close>

theorem C8_shutdown_releases_once:
  assumes "main E ps sched = (r, g', ts)"
  shows "exited (calls g') = (if entered (calls g') = 0 then 0 else 1) \<and>
         (entered (calls g') = 0 \<longrightarrow>
            r = None \<and> (g', ts) = run E sched (module_init, map new_task ps)) \<and>
         (sched = [] \<longrightarrow> r = None \<and> g' = module_init)"
proof -
  obtain g where run: "run E sched (module_init, map new_task ps) = (g, ts)"
    and sh: "shutdown E g = (r, g')"
    using assms by (auto simp: main_def split: prod.splits)
  have t: "context_tracked g"
    using run_context_tracked [of "(module_init, map new_task ps)" E sched] run
    by (simp add: module_init_context_tracked)
  show ?thesis
  proof (cases "mcp_context_manager g")
    case None
    then have "g' = g" "r = None"
      using sh by (simp_all add: shutdown_def)
    moreover have "entered (calls g) = 0" "exited (calls g) = 0"
      using t None by (simp_all add: context_tracked_def)
    ultimately show ?thesis
      using run by auto
  next
    case (Some h)
    then have e: "entered (calls g) \<noteq> 0" "exited (calls g) = 0"
      using t by (simp_all add: context_tracked_def)
    have "g' = log (Exit (exit_outcome E (calls g))) g"
      using sh Some by (auto simp: shutdown_def mcp_exit_def Let_def)
    then have "entered (calls g') = entered (calls g)" "exited (calls g') = 1"
      using e by (simp_all add: log_def entered_def exited_def is_Exit_def)
    moreover have "sched \<noteq> []"
      using run Some by (auto simp: module_init_def)
    ultimately show ?thesis
      using e by simp
  qed
qed

theorem C8_shutdown_releases_once_witness:
  "fst (main provider_up [] []) = None \<and>
   fst (snd (main provider_up [] [])) = module_init \<and>
   exited (calls (fst (snd (main provider_up [Map.empty] [0, 0])))) = 1 \<and>
   exited (calls (fst (snd (main provider_down [Map.empty] [0, 0])))) = 0 \<and>
   exited (calls (fst (snd (main provider_flaky [Map.empty, Map.empty] [0, 1])))) = 1"
proof -
  have m: "\<And>E ps sched. main E ps sched =
      (fst (main E ps sched), fst (snd (main E ps sched)), snd (snd (main E ps sched)))"
    by simp
  have up: "entered (calls (fst (snd (main provider_up [Map.empty] [0, 0])))) = 1"
    by code_simp
  have down: "entered (calls (fst (snd (main provider_down [Map.empty] [0, 0])))) = 0"
    by code_simp
  have flaky: "entered (calls (fst (snd (main provider_flaky [Map.empty, Map.empty] [0, 1])))) = 1"
    by code_simp
  have "fst (main provider_up [] []) = None \<and> fst (snd (main provider_up [] [])) = module_init"
    using C8_shutdown_releases_once [OF m [of provider_up "[]" "[]"]] by blast
  moreover have "exited (calls (fst (snd (main provider_up [Map.empty] [0, 0])))) = 1"
    using C8_shutdown_releases_once [OF m [of provider_up "[Map.empty]" "[0, 0]"]]
    by (simp only: up) simp
  moreover have "exited (calls (fst (snd (main provider_down [Map.empty] [0, 0])))) = 0"
    using C8_shutdown_releases_once [OF m [of provider_down "[Map.empty]" "[0, 0]"]]
    by (simp only: down) simp
  moreover have "exited (calls (fst (snd (main provider_flaky [Map.empty, Map.empty] [0, 1])))) = 1"
    using C8_shutdown_releases_once [OF m [of provider_flaky "[Map.empty, Map.empty]" "[0, 1]"]]
    by (simp only: flaky) simp
  ultimately show ?thesis
    by blast
qed

end
